theory Spec2Isabelle
  imports Main "HOL-Library.Word" "HOL-Library.Signed_Division"
begin

unbundle bit_operations_syntax

section \<open>Data model of \<open>src/main.c\<close>\<close>

text \<open>
  The target is a Nios II soft core: \<open>int\<close>, \<open>unsigned int\<close> and \<open>size_t\<close> are 32 bits
  wide, \<open>int16_t\<close> is 16 bits wide. All of them are machine words here; \<open>sint\<close> reads a
  word as a two's complement number.
\<close>

type_synonym int16_t = "16 word"
type_synonym c_int = "32 word"

text \<open>
  C's \<open>/\<close> and \<open>%\<close> on \<open>int\<close> truncate towards zero (\<open>sdiv\<close> and \<open>smod\<close> on the
  mathematical integers); the result is stored back into 32 bits.
\<close>

definition int_div :: "c_int \<Rightarrow> c_int \<Rightarrow> c_int" where
  "int_div a b = word_of_int (sint a sdiv sint b)"

definition int_rem :: "c_int \<Rightarrow> c_int \<Rightarrow> c_int" where
  "int_rem a b = word_of_int (sint a smod sint b)"

text \<open>The integer promotion of an \<open>int16_t\<close> operand to \<open>int\<close> (sign extension).\<close>

definition promote :: "int16_t \<Rightarrow> c_int" where
  "promote v = scast v"

text \<open>
  \<open>typedef struct position { int16_t x; int16_t y; int16_t z; } position_t\<close>. The fields
  carry the prefix \<open>pos_\<close> so that \<open>x\<close>, \<open>y\<close> and \<open>z\<close> stay free for variables.
\<close>

record position =
  pos_x :: int16_t
  pos_y :: int16_t
  pos_z :: int16_t

definition SEM_SHARED_DATA :: nat where "SEM_SHARED_DATA = 1"
definition STACK_SIZE :: nat where "STACK_SIZE = 800"
definition IDLE :: nat where "IDLE = 0"
definition TASK_TIMER :: nat where "TASK_TIMER = 1"
definition TASK_ACC :: nat where "TASK_ACC = 2"
definition TASK_ACC_FILTER :: nat where "TASK_ACC_FILTER = 3"
definition TASK_PLOT :: nat where "TASK_PLOT = 4"

subsection \<open>Calls into the collaborators, as events\<close>

text \<open>
  The kernel, the sensor driver, the console and the VGA driver are outside the
  repository. A task's effect on them is the sequence of calls it makes, in program
  order. \<open>Cell_store\<close> and \<open>Cell_load\<close> are the two struct assignments that touch
  \<open>global_acc_data\<close>; each carries the whole three-field value that is copied.
\<close>

datatype colour = Col_White | Col_Black | Col_Cyan | Col_Green | Col_Magenta | Col_Red

datatype event =
    Printf string
  | Tty_print c_int c_int string colour colour
  | Int_print c_int c_int c_int c_int colour colour
  | Clear_screen_range c_int c_int c_int c_int
  | Draw_hline c_int c_int c_int colour
  | Draw_filled_circle c_int c_int c_int colour
  | Accelerometer_receive position
  | Sem_take nat
  | Sem_release nat
  | Cell_store position
  | Cell_load position

text \<open>
  \<open>deadline.periodic_start_integer\<close>, the value \<open>wait_for_next_period()\<close> returns. The
  union is declared in the kernel's header; only its integer view is used, and only its
  lowest bit is tested.
\<close>

type_synonym periodic_start_integer = "32 word"

subsection \<open>The unbounded task loops\<close>

text \<open>
  Every task is \<open>while (1) { deadline = wait_for_next_period(); body }\<close>. One run of the
  body is a function from what the environment hands over at that release (the value
  returned by the wait, and what the sensor or the shared cell holds) and the task's
  local variables to the new local variables and the calls made. The loop is the body
  iterated over the releases the environment grants, one input per release; no body has
  a \<open>break\<close>, a \<open>return\<close> or an exit call, so a body is a total function with no
  terminating outcome. The result keeps the calls of each period apart.
\<close>

fun run_task :: "('i \<Rightarrow> 's \<Rightarrow> 's \<times> event list) \<Rightarrow> 'i list \<Rightarrow> 's \<Rightarrow> 's \<times> event list list" where
  "run_task body [] s = (s, [])"
| "run_task body (i # rest) s =
     (case body i s of (s1, ev) \<Rightarrow>
        (case run_task body rest s1 of (s2, tr) \<Rightarrow> (s2, ev # tr)))"

section \<open>Idle task\<close>

text \<open>
  \<open>idle_code\<close>: a start message, then for ever a busy delay followed by a dot. The
  argument counts the rounds of the outer loop that have completed.
\<close>

definition idle_code :: "nat \<Rightarrow> event list" where
  "idle_code n = Printf ''Idle task started\<newline>'' # replicate n (Printf ''.\<newline>'')"

section \<open>Timer task\<close>

definition timer_task_period :: "periodic_start_integer \<Rightarrow> c_int \<Rightarrow> c_int \<times> event list" where
  "timer_task_period deadline time =
     (let time1 = time + 1 in
      (time1,
       (if deadline AND 1 \<noteq> 0 then [Printf ''Deadline miss: TIMER task\<newline>''] else []) @
       [Tty_print 70 140 ''Timer'' Col_White Col_Black,
        Int_print 70 165 time1 5 Col_White Col_Black]))"

definition timer_task_run :: "periodic_start_integer list \<Rightarrow> c_int \<times> event list list" where
  "timer_task_run ins = run_task timer_task_period ins 0"

section \<open>Accelerometer reading task\<close>

text \<open>
  The body's only local is \<open>local_acc_data\<close>, and \<open>accelerometer_receive\<close> overwrites its
  three fields before they are read: the reading \<open>r\<close> is an input of the period. The state
  threaded through is the shared cell \<open>global_acc_data\<close>.
\<close>

definition task_acc_period :: "periodic_start_integer \<times> position \<Rightarrow> position \<Rightarrow> position \<times> event list" where
  "task_acc_period inp global_acc_data =
     (case inp of (deadline, r) \<Rightarrow>
      (r,
       (if deadline AND 1 \<noteq> 0 then [Printf ''Deadline miss: ACC task\<newline>''] else []) @
       [Accelerometer_receive r,
        Sem_take SEM_SHARED_DATA, Cell_store r, Sem_release SEM_SHARED_DATA,
        Tty_print 60 25 ''task_Acc'' Col_White Col_Black,
        Tty_print 60 40 ''X'' Col_White Col_Black,
        Int_print 70 40 (promote (pos_x r)) 3 Col_White Col_Black,
        Tty_print 60 50 ''Y'' Col_White Col_Black,
        Int_print 70 50 (promote (pos_y r)) 3 Col_White Col_Black,
        Tty_print 60 60 ''Z'' Col_White Col_Black,
        Int_print 70 60 (promote (pos_z r)) 3 Col_White Col_Black]))"

definition task_acc_run :: "(periodic_start_integer \<times> position) list \<Rightarrow> position \<Rightarrow> position \<times> event list list" where
  "task_acc_run ins g = run_task task_acc_period ins g"

section \<open>Accelerometer filter task\<close>

text \<open>
  The locals of \<open>task_acc_filter_code\<close>. \<open>acc_array\<close> is not initialised by the source:
  its ten slots hold whatever the stack held, so the initial array is a parameter.
\<close>

record filter_state =
  acc_array :: "position list"
  counter :: c_int
  sampled_ten_times :: bool
  avg_x :: c_int
  avg_y :: c_int
  avg_z :: c_int

definition filter_init :: "position list \<Rightarrow> filter_state" where
  "filter_init arr0 =
     \<lparr>acc_array = arr0, counter = 0, sampled_ten_times = False,
      avg_x = 0, avg_y = 0, avg_z = 0\<rparr>"

text \<open>
  One round of \<open>for (size_t i = 0; i < 10; i++) { avg_x += acc_array[i].x; ... }\<close>, and
  the loop from index \<open>i\<close> on. The index only takes the values 0 to 10 and is a natural
  number here.
\<close>

definition sum_body :: "position list \<Rightarrow> nat \<Rightarrow> c_int \<times> c_int \<times> c_int \<Rightarrow> c_int \<times> c_int \<times> c_int" where
  "sum_body arr i acc =
     (case acc of (ax, ay, az) \<Rightarrow>
        (ax + promote (pos_x (arr ! i)),
         ay + promote (pos_y (arr ! i)),
         az + promote (pos_z (arr ! i))))"

function sum_loop :: "position list \<Rightarrow> nat \<Rightarrow> c_int \<times> c_int \<times> c_int \<Rightarrow> c_int \<times> c_int \<times> c_int" where
  "sum_loop arr i acc = (if i < 10 then sum_loop arr (i + 1) (sum_body arr i acc) else acc)"
  by pat_completeness auto
termination
  by (relation "measure (\<lambda>(arr, i, acc). 10 - i)") auto

declare sum_loop.simps [simp del]

text \<open>The accumulators as they stand when the loop test is evaluated with index \<open>i\<close>.\<close>

definition partial_sums :: "position list \<Rightarrow> nat \<Rightarrow> c_int \<times> c_int \<times> c_int" where
  "partial_sums arr i = foldl (\<lambda>acc j. sum_body arr j acc) (0, 0, 0) [0..<i]"

definition average :: "position list \<Rightarrow> c_int \<times> c_int \<times> c_int" where
  "average arr =
     (case sum_loop arr 0 (0, 0, 0) of (sx, sy, sz) \<Rightarrow>
        (int_div sx 10, int_div sy 10, int_div sz 10))"

definition filter_display :: "c_int \<Rightarrow> c_int \<Rightarrow> c_int \<Rightarrow> event list" where
  "filter_display ax ay az =
     [Tty_print 220 50 ''X'' Col_White Col_Black,
      Int_print 230 50 ax 3 Col_White Col_Black,
      Tty_print 220 60 ''Y'' Col_White Col_Black,
      Int_print 230 60 ay 3 Col_White Col_Black,
      Tty_print 220 70 ''Z'' Col_White Col_Black,
      Int_print 230 70 az 3 Col_White Col_Black]"

text \<open>
  One period of the filter task. \<open>g\<close> is the value of \<open>global_acc_data\<close> at the moment of
  the copy under the semaphore. The array index is \<open>counter\<close>, which stays within 0..9
  (lemma \<open>filter_counter_after\<close> below), so the store is always inside the array.
\<close>

definition task_acc_filter_period :: "periodic_start_integer \<times> position \<Rightarrow> filter_state \<Rightarrow> filter_state \<times> event list" where
  "task_acc_filter_period inp s =
     (case inp of (deadline, g) \<Rightarrow>
      (let s1 = s\<lparr>acc_array := (acc_array s)[nat (sint (counter s)) := g]\<rparr>;
           head = (if deadline AND 1 \<noteq> 0
                   then [Printf ''Deadline miss: ACC FILTER task\<newline>''] else []) @
                  [Sem_take SEM_SHARED_DATA, Cell_load g, Sem_release SEM_SHARED_DATA,
                   Tty_print 200 35 ''task_acc_filter'' Col_White Col_Black];
           branch =
             (if sampled_ten_times s1 then
                (case average (acc_array s1) of (ax, ay, az) \<Rightarrow>
                   (s1\<lparr>avg_x := ax, avg_y := ay, avg_z := az\<rparr>, filter_display ax ay az))
              else if counter s1 = 9 then
                (s1\<lparr>sampled_ten_times := True\<rparr>, [Clear_screen_range 170 0 319 110])
              else
                (s1, [Tty_print 200 65 ''sampling...'' Col_White Col_Black]))
       in (case branch of (s2, out) \<Rightarrow>
             (s2\<lparr>counter := int_rem (counter s2 + 1) 10\<rparr>, head @ out))))"

definition task_acc_filter_run :: "(periodic_start_integer \<times> position) list \<Rightarrow> position list \<Rightarrow> filter_state \<times> event list list" where
  "task_acc_filter_run ins arr0 = run_task task_acc_filter_period ins (filter_init arr0)"

section \<open>Plotting task\<close>

text \<open>
  The locals of \<open>task_plot_code\<close> are \<open>local_pos\<close>, overwritten before use in every period,
  and \<open>counter\<close>, threaded through as \<open>plot_counter\<close> (the filter task's record already
  has a field \<open>counter\<close>).
\<close>

definition task_plot_period :: "periodic_start_integer \<times> position \<Rightarrow> c_int \<Rightarrow> c_int \<times> event list" where
  "task_plot_period inp plot_counter =
     (case inp of (deadline, local_pos) \<Rightarrow>
      (int_rem (plot_counter + 1) 5,
       (if deadline AND 1 \<noteq> 0 then [Printf ''Deadline miss: PLOT task\<newline>''] else []) @
       (if plot_counter = 0 then [Clear_screen_range 170 125 319 239] else []) @
       [Tty_print 200 130 ''task_acc_filter'' Col_White Col_Black,
        Sem_take SEM_SHARED_DATA, Cell_load local_pos, Sem_release SEM_SHARED_DATA,
        Tty_print 190 180 ''0'' Col_White Col_Black,
        Draw_hline 200 180 60 Col_Cyan,
        Draw_filled_circle
          (205 + 5 * plot_counter)
          (180 + int_div (promote (pos_z local_pos)) 8 * (- 1))
          1
          Col_Green]))"

definition task_plot_run :: "(periodic_start_integer \<times> position) list \<Rightarrow> c_int \<times> event list list" where
  "task_plot_run ins = run_task task_plot_period ins 0"

section \<open>The tasks side by side\<close>

text \<open>
  The four periodic tasks share one variable, \<open>global_acc_data\<close>, a zero-initialised
  global. \<open>accelerometer_receive\<close> and the struct copy under the semaphore are the only
  places where a task body can be held up, and the copy is atomic for the other tasks
  because they take the same semaphore; every other variable is local to one task. A run
  of the system is therefore a sequence of releases, each one running one body against
  the current cell. Which task is released when is the kernel's choice and is the input.
\<close>

record system =
  global_acc_data :: position
  timer_time :: c_int
  filter_locals :: filter_state
  plot_counter :: c_int





section \<open>Task creation in \<open>main\<close>\<close>

datatype task_state = READY_TASK_STATE

datatype entry_point =
  Idle_code | Timer_task_code | Task_acc_code | Task_acc_filter_code | Task_plot_code

record task_create =
  task_id :: nat
  priority :: nat
  initial_state :: task_state
  entry :: entry_point
  stack_size :: nat

text \<open>The five \<open>task_create\<close> calls of \<open>main\<close>, in program order.\<close>

definition main_task_create :: "task_create list" where
  "main_task_create =
     [\<lparr>task_id = IDLE, priority = 0, initial_state = READY_TASK_STATE,
       entry = Idle_code, stack_size = STACK_SIZE\<rparr>,
      \<lparr>task_id = TASK_TIMER, priority = 1, initial_state = READY_TASK_STATE,
       entry = Timer_task_code, stack_size = STACK_SIZE\<rparr>,
      \<lparr>task_id = TASK_ACC, priority = 1, initial_state = READY_TASK_STATE,
       entry = Task_acc_code, stack_size = STACK_SIZE\<rparr>,
      \<lparr>task_id = TASK_ACC_FILTER, priority = 1, initial_state = READY_TASK_STATE,
       entry = Task_acc_filter_code, stack_size = STACK_SIZE\<rparr>,
      \<lparr>task_id = TASK_PLOT, priority = 1, initial_state = READY_TASK_STATE,
       entry = Task_plot_code, stack_size = STACK_SIZE\<rparr>]"

text \<open>
  The argument of the \<open>init_period_time\<close> call that opens each task function;
  \<open>idle_code\<close> makes no such call.
\<close>

fun init_period_time :: "entry_point \<Rightarrow> nat option" where
  "init_period_time Idle_code = None"
| "init_period_time Timer_task_code = Some 50"
| "init_period_time Task_acc_code = Some 50"
| "init_period_time Task_acc_filter_code = Some 50"
| "init_period_time Task_plot_code = Some 50"

text \<open>
  The length of one kernel tick in milliseconds, as the comments at \<open>set_timebase(1000)\<close>
  and at the first \<open>init_period_time(50)\<close> give it (``20ms tick (50Hz)'', ``50 ticks @
  20ms each''); the kernel that turns the time base into a tick is not part of the
  repository.
\<close>

definition tick_ms :: nat where
  "tick_ms = 20"

section \<open>Observations on the calls of a period\<close>

fun is_printf :: "event \<Rightarrow> bool" where
  "is_printf (Printf m) = True"
| "is_printf e = False"

fun is_int_print :: "event \<Rightarrow> bool" where
  "is_int_print (Int_print px py v w fg bg) = True"
| "is_int_print e = False"

fun is_clear :: "event \<Rightarrow> bool" where
  "is_clear (Clear_screen_range x0 y0 x1 y1) = True"
| "is_clear e = False"

fun is_circle :: "event \<Rightarrow> bool" where
  "is_circle (Draw_filled_circle cx cy r c) = True"
| "is_circle e = False"

fun is_cell_access :: "event \<Rightarrow> bool" where
  "is_cell_access (Cell_store p) = True"
| "is_cell_access (Cell_load p) = True"
| "is_cell_access e = False"

text \<open>
  The average a period of the filter task puts on the screen. The filter task is the only
  one that prints numbers in column 230 (the reading task and the timer task print in
  column 70), one number per axis. \<open>first_average\<close> is the earliest average of a run.
\<close>

fun avg_value :: "event \<Rightarrow> c_int option" where
  "avg_value (Int_print px py v w fg bg) = (if px = 230 then Some v else None)"
| "avg_value e = None"

definition shown_average :: "event list \<Rightarrow> (c_int \<times> c_int \<times> c_int) option" where
  "shown_average evs =
     (case List.map_filter avg_value evs of
        [ax, ay, az] \<Rightarrow> Some (ax, ay, az)
      | _ \<Rightarrow> None)"

fun first_average :: "event list list \<Rightarrow> (c_int \<times> c_int \<times> c_int) option" where
  "first_average [] = None"
| "first_average (evs # tr) =
     (case shown_average evs of Some a \<Rightarrow> Some a | None \<Rightarrow> first_average tr)"

text \<open>
  The locking discipline of one task, read off its calls: the semaphore is taken only
  when free and released only when held, \<open>global_acc_data\<close> is touched only while it is
  held, every other call (console, display, sensor) is made only while it is not held,
  and it is not held when the calls end.
\<close>

fun lock_ok :: "bool \<Rightarrow> event list \<Rightarrow> bool" where
  "lock_ok held [] = (\<not> held)"
| "lock_ok held (Sem_take i # es) = (\<not> held \<and> i = SEM_SHARED_DATA \<and> lock_ok True es)"
| "lock_ok held (Sem_release i # es) = (held \<and> i = SEM_SHARED_DATA \<and> lock_ok False es)"
| "lock_ok held (Cell_store p # es) = (held \<and> lock_ok held es)"
| "lock_ok held (Cell_load p # es) = (held \<and> lock_ok held es)"
| "lock_ok held (e # es) = (\<not> held \<and> lock_ok held es)"

text \<open>
  The exact sum of one axis over the first \<open>i\<close> slots of the buffer, on the mathematical
  integers.
\<close>

definition axis_sum :: "(position \<Rightarrow> int16_t) \<Rightarrow> position list \<Rightarrow> nat \<Rightarrow> int" where
  "axis_sum f arr i = (\<Sum>j<i. sint (f (arr ! j)))"

subsection \<open>The ramp scenario\<close>

text \<open>
  The samples (1,2,3), (4,5,6), ..., (28,29,30), and the schedule in which the sampling
  task stores the \<open>k\<close>-th of them and the filter task then runs, for \<open>k\<close> from 0 to 9.
  \<open>dl\<close> gives the value \<open>wait_for_next_period\<close> returns at each release.
\<close>

definition ramp :: "nat \<Rightarrow> position" where
  "ramp k = \<lparr>pos_x = of_nat (3 * k + 1), pos_y = of_nat (3 * k + 2), pos_z = of_nat (3 * k + 3)\<rparr>"







definition zero_array :: "position list" where
  "zero_array = replicate 10 \<lparr>pos_x = 0, pos_y = 0, pos_z = 0\<rparr>"

definition ramp_inputs :: "(periodic_start_integer \<times> position) list" where
  "ramp_inputs = map (\<lambda>k. (0, ramp k)) [0..<10]"

section \<open>Running a loop body over the releases\<close>

lemma run_task_length: "length (snd (run_task body ins s)) = length ins"
  by (induction ins arbitrary: s) (simp_all add: case_prod_unfold)

lemma run_task_snoc:
  "run_task body (xs @ [i]) s =
     (fst (body i (fst (run_task body xs s))),
      snd (run_task body xs s) @ [snd (body i (fst (run_task body xs s)))])"
  by (induction xs arbitrary: s) (simp_all add: case_prod_unfold)

lemma run_task_nth:
  "k < length ins \<Longrightarrow>
     snd (run_task body ins s) ! k = snd (body (ins ! k) (fst (run_task body (take k ins) s)))"
proof (induction ins arbitrary: s k)
  case Nil
  then show ?case by simp
next
  case (Cons i ins)
  show ?case
  proof (cases k)
    case 0
    then show ?thesis by (simp add: case_prod_unfold)
  next
    case (Suc j)
    with Cons.prems have "j < length ins" by simp
    from Cons.IH [OF this] Suc show ?thesis by (simp add: case_prod_unfold)
  qed
qed

lemma run_task_take_Suc:
  "k < length ins \<Longrightarrow>
     fst (run_task body (take (Suc k) ins) s) = fst (body (ins ! k) (fst (run_task body (take k ins) s)))"
  by (simp add: take_Suc_conv_app_nth run_task_snoc)

section \<open>Machine arithmetic without wrap-around\<close>

lemma sint_promote: "sint (promote v) = sint v"
  unfolding promote_def by (simp add: sint_up_scast is_up)

lemma sint16_range: "- 32768 \<le> sint (v :: int16_t) \<and> sint v \<le> 32767"
  using sint_ge [of v] sint_lt [of v] by simp

lemma sint_word_of_int_32:
  "- 2147483648 \<le> k \<Longrightarrow> k \<le> 2147483647 \<Longrightarrow> sint (word_of_int k :: c_int) = k"
  by (simp add: sint_sbintrunc' signed_take_bit_int_eq_self)

lemma sint_add_no_wrap:
  fixes a b :: c_int
  assumes "- 2147483648 \<le> sint a + sint b" "sint a + sint b \<le> 2147483647"
  shows "sint (a + b) = sint a + sint b"
proof -
  have "a + b = word_of_int (sint a + sint b)" by simp
  then show ?thesis using assms sint_word_of_int_32 by metis
qed

lemma sdiv_within: "- m \<le> a \<Longrightarrow> a \<le> m \<Longrightarrow> - m \<le> (a::int) sdiv b \<and> a sdiv b \<le> m"
  using sdiv_int_range [of a b] by auto

lemma sint_int_div:
  assumes "- 2147483647 \<le> sint a"
  shows "sint (int_div a b) = sint a sdiv sint b"
proof -
  have "sint a \<le> 2147483647" using sint_lt [of a] by simp
  with assms sdiv_within [of 2147483647 "sint a" "sint b"]
  have "- 2147483648 \<le> sint a sdiv sint b" "sint a sdiv sint b \<le> 2147483647" by auto
  then show ?thesis unfolding int_div_def by (rule sint_word_of_int_32)
qed

lemma small_cases:
  assumes "k < 10"
  obtains "k = 0" | "k = 1" | "k = 2" | "k = 3" | "k = 4"
    | "k = 5" | "k = 6" | "k = 7" | "k = 8" | "k = (9::nat)"
proof -
  from assms have "k \<in> {0, 1, 2, 3, 4, 5, 6, 7, 8, 9}" by auto
  with that show thesis by blast
qed


section \<open>The summation loop of the filter task\<close>

lemma partial_sums_Suc: "partial_sums arr (Suc i) = sum_body arr i (partial_sums arr i)"
  by (simp add: partial_sums_def)

lemma sum_loop_foldl:
  "i \<le> 10 \<Longrightarrow> sum_loop arr i acc = foldl (\<lambda>acc j. sum_body arr j acc) acc [i..<10]"
proof (induction arr i acc rule: sum_loop.induct)
  case (1 arr i acc)
  show ?case
  proof (cases "i < 10")
    case True
    then have "[i..<10] = i # [i + 1..<10]" by (simp add: upt_conv_Cons)
    with True "1.IH" show ?thesis by (subst sum_loop.simps) simp
  next
    case False
    with "1.prems" show ?thesis by (subst sum_loop.simps) simp
  qed
qed

lemma sum_loop_partial_sums: "sum_loop arr 0 (0, 0, 0) = partial_sums arr 10"
  unfolding partial_sums_def by (rule sum_loop_foldl) simp

lemma axis_sum_bounds:
  "- 32768 * int i \<le> axis_sum f arr i \<and> axis_sum f arr i \<le> 32767 * int i"
proof (induction i)
  case 0
  then show ?case by (simp add: axis_sum_def)
next
  case (Suc i)
  from sint16_range [of "f (arr ! i)"] Suc show ?case
    by (simp add: axis_sum_def algebra_simps)
qed

lemma partial_sums_exact:
  "i \<le> 10 \<Longrightarrow>
   partial_sums arr i = (ax, ay, az) \<Longrightarrow>
   sint ax = axis_sum pos_x arr i \<and> sint ay = axis_sum pos_y arr i \<and> sint az = axis_sum pos_z arr i"
proof (induction i arbitrary: ax ay az)
  case 0
  then show ?case by (simp add: partial_sums_def axis_sum_def)
next
  case (Suc i)
  obtain bx bY bz where p: "partial_sums arr i = (bx, bY, bz)"
    by (cases "partial_sums arr i") auto
  from Suc.prems have i: "i \<le> 10" "int i \<le> 9" by simp_all
  from Suc.IH [OF i(1) p]
  have ih: "sint bx = axis_sum pos_x arr i" "sint bY = axis_sum pos_y arr i"
    "sint bz = axis_sum pos_z arr i"
    by simp_all
  have step: "sint (b + promote v) = axis_sum f arr i + sint v"
    if "sint b = axis_sum f arr i" for b f v
  proof -
    from axis_sum_bounds [of i f arr] i(2) sint16_range [of v] that
    have "- 2147483648 \<le> sint b + sint (promote v)" "sint b + sint (promote v) \<le> 2147483647"
      by (simp_all add: sint_promote)
    from sint_add_no_wrap [OF this] that show ?thesis by (simp add: sint_promote)
  qed
  from Suc.prems(2) p
  have "ax = bx + promote (pos_x (arr ! i))" "ay = bY + promote (pos_y (arr ! i))"
    "az = bz + promote (pos_z (arr ! i))"
    by (simp_all add: partial_sums_Suc sum_body_def)
  with ih step show ?case by (simp add: axis_sum_def)
qed

lemma average_exact:
  assumes "average arr = (mx, my, mz)"
  shows "sint mx = axis_sum pos_x arr 10 sdiv 10 \<and> sint my = axis_sum pos_y arr 10 sdiv 10
     \<and> sint mz = axis_sum pos_z arr 10 sdiv 10"
proof -
  obtain sx sy sz where p: "partial_sums arr 10 = (sx, sy, sz)"
    by (cases "partial_sums arr 10") auto
  from partial_sums_exact [OF _ p]
  have s: "sint sx = axis_sum pos_x arr 10" "sint sy = axis_sum pos_y arr 10"
    "sint sz = axis_sum pos_z arr 10"
    by simp_all
  have d: "sint (int_div b 10) = axis_sum f arr 10 sdiv 10" if "sint b = axis_sum f arr 10" for b f
  proof -
    from axis_sum_bounds [of 10 f arr] that have "- 2147483647 \<le> sint b" by simp
    from sint_int_div [OF this, of 10] that show ?thesis by simp
  qed
  from assms have "mx = int_div sx 10" "my = int_div sy 10" "mz = int_div sz 10"
    unfolding average_def sum_loop_partial_sums p by simp_all
  with s d show ?thesis by simp
qed

text \<open>
  Claim C10. The sample fields are 16-bit signed integers by their type. For a buffer of
  ten slots and every index \<open>i\<close> from 0 to 10 at which the loop test is evaluated, each of
  the three 32-bit accumulators holds exactly the sum of the first \<open>i\<close> slots of its axis,
  and that sum lies between -327680 and 327670; the loop as written ends in the
  accumulators of index 10; and the stored averages are exactly these sums divided by 10
  with truncation towards zero. No addition and no division wraps around.
\<close>

theorem accumulation_never_overflows:
  assumes "length arr = 10" and "i \<le> 10"
  shows "(case partial_sums arr i of (ax, ay, az) \<Rightarrow>
            sint ax = axis_sum pos_x arr i \<and> - 327680 \<le> sint ax \<and> sint ax \<le> 327670 \<and>
            sint ay = axis_sum pos_y arr i \<and> - 327680 \<le> sint ay \<and> sint ay \<le> 327670 \<and>
            sint az = axis_sum pos_z arr i \<and> - 327680 \<le> sint az \<and> sint az \<le> 327670) \<and>
         sum_loop arr 0 (0, 0, 0) = partial_sums arr 10 \<and>
         (case average arr of (mx, my, mz) \<Rightarrow>
            sint mx = axis_sum pos_x arr 10 sdiv 10 \<and>
            sint my = axis_sum pos_y arr 10 sdiv 10 \<and>
            sint mz = axis_sum pos_z arr 10 sdiv 10)"
proof -
  obtain ax ay az where p: "partial_sums arr i = (ax, ay, az)"
    by (cases "partial_sums arr i") auto
  obtain mx my mz where a: "average arr = (mx, my, mz)"
    by (cases "average arr") auto
  from assms(2) have i: "int i \<le> 10" by simp
  have range: "- 327680 \<le> axis_sum f arr i \<and> axis_sum f arr i \<le> 327670" for f
    using axis_sum_bounds [of i f arr] i by simp
  from partial_sums_exact [OF assms(2) p] range [of pos_x] range [of pos_y] range [of pos_z]
  have "sint ax = axis_sum pos_x arr i \<and> - 327680 \<le> sint ax \<and> sint ax \<le> 327670 \<and>
        sint ay = axis_sum pos_y arr i \<and> - 327680 \<le> sint ay \<and> sint ay \<le> 327670 \<and>
        sint az = axis_sum pos_z arr i \<and> - 327680 \<le> sint az \<and> sint az \<le> 327670"
    by simp
  with average_exact [OF a] show ?thesis
    by (simp add: p a sum_loop_partial_sums)
qed

text \<open>
  The bounds are attained: ten slots of 32767 sum to 327670, ten slots of -32768 to
  -327680.
\<close>

theorem accumulation_never_overflows_witness:
  "length (replicate 10 \<lparr>pos_x = 32767, pos_y = - 32768, pos_z = - 7\<rparr>) = 10 \<and>
   partial_sums (replicate 10 \<lparr>pos_x = 32767, pos_y = - 32768, pos_z = - 7\<rparr>) 10
     = (327670, - 327680, - 70) \<and>
   average (replicate 10 \<lparr>pos_x = 32767, pos_y = - 32768, pos_z = - 7\<rparr>)
     = (32767, - 32768, - 7) \<and>
   axis_sum pos_x (replicate 10 \<lparr>pos_x = 32767, pos_y = - 32768, pos_z = - 7\<rparr>) 10 = 327670 \<and>
   axis_sum pos_y (replicate 10 \<lparr>pos_x = 32767, pos_y = - 32768, pos_z = - 7\<rparr>) 10 = - 327680 \<and>
   axis_sum pos_z (replicate 10 \<lparr>pos_x = 32767, pos_y = - 32768, pos_z = - 7\<rparr>) 10 = - 70"
proof -
  let ?arr = "replicate 10 \<lparr>pos_x = 32767, pos_y = - 32768, pos_z = - (7::int16_t)\<rparr>"
  have len: "length ?arr = 10" by simp
  have ps: "partial_sums ?arr 10 = (327670, - 327680, - 70)"
    by (simp add: partial_sums_def sum_body_def promote_def eval_nat_numeral)
  have av: "average ?arr = (32767, - 32768, - 7)"
    by (simp add: average_def sum_loop_partial_sums ps int_div_def signed_divide_int_def)
  from accumulation_never_overflows [OF len, of 10] ps av len show ?thesis
    by (simp add: axis_sum_def)
qed

section \<open>The filter task, period by period\<close>

lemma filter_period_counter:
  "counter (fst (task_acc_filter_period (d, g) s)) = int_rem (counter s + 1) 10"
  by (simp add: task_acc_filter_period_def Let_def case_prod_unfold)

lemma filter_period_flag:
  "sampled_ten_times (fst (task_acc_filter_period (d, g) s)) = (sampled_ten_times s \<or> counter s = 9)"
  by (simp add: task_acc_filter_period_def Let_def case_prod_unfold)


lemma filter_period_avg:
  "(avg_x (fst (task_acc_filter_period (d, g) s)),
    avg_y (fst (task_acc_filter_period (d, g) s)),
    avg_z (fst (task_acc_filter_period (d, g) s))) =
   (if sampled_ten_times s then average ((acc_array s)[nat (sint (counter s)) := g])
    else (avg_x s, avg_y s, avg_z s))"
  by (simp add: task_acc_filter_period_def Let_def case_prod_unfold)

lemma filter_period_events:
  "snd (task_acc_filter_period (d, g) s) =
     (if d AND 1 \<noteq> 0 then [Printf ''Deadline miss: ACC FILTER task\<newline>''] else []) @
     [Sem_take SEM_SHARED_DATA, Cell_load g, Sem_release SEM_SHARED_DATA,
      Tty_print 200 35 ''task_acc_filter'' Col_White Col_Black] @
     (if sampled_ten_times s then
        filter_display (avg_x (fst (task_acc_filter_period (d, g) s)))
          (avg_y (fst (task_acc_filter_period (d, g) s)))
          (avg_z (fst (task_acc_filter_period (d, g) s)))
      else if counter s = 9 then [Clear_screen_range 170 0 319 110]
      else [Tty_print 200 65 ''sampling...'' Col_White Col_Black])"
  by (simp add: task_acc_filter_period_def Let_def case_prod_unfold)

lemma filter_counter_step:
  "k < 10 \<Longrightarrow> int_rem (of_nat k + 1) 10 = of_nat (Suc k mod 10)"
  by (erule small_cases) (simp_all add: int_rem_def signed_modulo_int_def)


lemma filter_counter_nine:
  "k < 10 \<Longrightarrow> ((of_nat k :: c_int) = 9) = (k = 9)"
  by (erule small_cases) simp_all

lemma filter_counter_after:
  "counter (fst (run_task task_acc_filter_period ins (filter_init arr0))) = of_nat (length ins mod 10)"
proof (induction ins rule: rev_induct)
  case Nil
  then show ?case by (simp add: filter_init_def)
next
  case (snoc i ins)
  obtain d g where i: "i = (d, g)" by (cases i)
  have "length ins mod 10 < 10" by simp
  from filter_counter_step [OF this] snoc show ?case
    by (simp add: run_task_snoc i filter_period_counter mod_Suc)
qed

lemma filter_flag_after:
  "sampled_ten_times (fst (run_task task_acc_filter_period ins (filter_init arr0))) = (10 \<le> length ins)"
proof (induction ins rule: rev_induct)
  case Nil
  then show ?case by (simp add: filter_init_def)
next
  case (snoc i ins)
  obtain d g where i: "i = (d, g)" by (cases i)
  have "length ins mod 10 < 10" by simp
  from filter_counter_nine [OF this]
  have "(counter (fst (run_task task_acc_filter_period ins (filter_init arr0))) = 9) = (length ins mod 10 = 9)"
    by (simp add: filter_counter_after)
  with snoc show ?case
    by (simp add: run_task_snoc i filter_period_flag) presburger
qed



lemma filter_avg_before:
  "length ins \<le> 10 \<Longrightarrow>
   avg_x (fst (run_task task_acc_filter_period ins (filter_init arr0))) = 0 \<and>
   avg_y (fst (run_task task_acc_filter_period ins (filter_init arr0))) = 0 \<and>
   avg_z (fst (run_task task_acc_filter_period ins (filter_init arr0))) = 0"
proof (induction ins rule: rev_induct)
  case Nil
  then show ?case by (simp add: filter_init_def)
next
  case (snoc i ins)
  obtain d g where i: "i = (d, g)" by (cases i)
  let ?s = "fst (run_task task_acc_filter_period ins (filter_init arr0))"
  from snoc.prems have "\<not> sampled_ten_times ?s" by (simp add: filter_flag_after)
  with filter_period_avg [of d g ?s] snoc show ?case
    by (simp add: run_task_snoc i)
qed

lemma filter_counter_value:
  "sint (counter (fst (run_task task_acc_filter_period ins (filter_init arr0)))) = int (length ins mod 10)"
proof -
  have "length ins mod 10 < 10" by simp
  then have "sint (of_nat (length ins mod 10) :: c_int) = int (length ins mod 10)"
    by (rule small_cases) simp_all
  then show ?thesis by (simp add: filter_counter_after)
qed

lemma filter_period_clear:
  "filter is_clear (snd (task_acc_filter_period (d, g) s)) =
     (if \<not> sampled_ten_times s \<and> counter s = 9 then [Clear_screen_range 170 0 319 110] else [])"
  by (simp add: filter_period_events filter_display_def)

lemma filter_period_int_print:
  "filter is_int_print (snd (task_acc_filter_period (d, g) s)) =
     (if sampled_ten_times s then
        [Int_print 230 50 (avg_x (fst (task_acc_filter_period (d, g) s))) 3 Col_White Col_Black,
         Int_print 230 60 (avg_y (fst (task_acc_filter_period (d, g) s))) 3 Col_White Col_Black,
         Int_print 230 70 (avg_z (fst (task_acc_filter_period (d, g) s))) 3 Col_White Col_Black]
      else [])"
  by (simp add: filter_period_events filter_display_def)

lemma filter_period_shown:
  "shown_average (snd (task_acc_filter_period (d, g) s)) =
     (if sampled_ten_times s then
        Some (avg_x (fst (task_acc_filter_period (d, g) s)),
              avg_y (fst (task_acc_filter_period (d, g) s)),
              avg_z (fst (task_acc_filter_period (d, g) s)))
      else None)"
  by (simp add: shown_average_def filter_period_events filter_display_def List.map_filter_simps)

lemma filter_period_sampling:
  "(Tty_print 200 65 ''sampling...'' Col_White Col_Black \<in> set (snd (task_acc_filter_period (d, g) s))) =
     (\<not> sampled_ten_times s \<and> counter s \<noteq> 9)"
  by (simp add: filter_period_events filter_display_def)

lemma first_average_None:
  "(first_average tr = None) = (\<forall>evs \<in> set tr. shown_average evs = None)"
  by (induction tr) (auto split: option.splits)



text \<open>
  Claim C3. In a run of the filter task over any releases, the flag \<open>sampled_ten_times\<close>
  is false before period \<open>k\<close> (counting from 0) exactly if \<open>k < 10\<close> and true after it
  exactly if \<open>9 \<le> k\<close>: it goes from false to true in period 9 and in no other period, is
  never set earlier and never reset. Period 9 is the one that starts with the write
  cursor at 9 and ends with it wrapped to 0 for the first time; it writes slot 9, the
  tenth write of the run. The average-display region is cleared in that period, once,
  and in no other period.
\<close>

theorem filter_primed_exactly_once:
  assumes "k < length ins"
  shows "sampled_ten_times (fst (task_acc_filter_run (take k ins) arr0)) = (10 \<le> k) \<and>
         sampled_ten_times (fst (task_acc_filter_run (take (Suc k) ins) arr0)) = (9 \<le> k) \<and>
         sint (counter (fst (task_acc_filter_run (take k ins) arr0))) = int (k mod 10) \<and>
         sint (counter (fst (task_acc_filter_run (take (Suc k) ins) arr0))) = int (Suc k mod 10) \<and>
         filter is_clear (snd (task_acc_filter_run ins arr0) ! k) =
           (if k = 9 then [Clear_screen_range 170 0 319 110] else [])"
proof -
  let ?s = "fst (run_task task_acc_filter_period (take k ins) (filter_init arr0))"
  obtain d g where i: "ins ! k = (d, g)" by (cases "ins ! k")
  from assms have fl: "sampled_ten_times ?s = (10 \<le> k)" by (simp add: filter_flag_after)
  have "k mod 10 < 10" by simp
  from filter_counter_nine [OF this] assms have c9: "(counter ?s = 9) = (k mod 10 = 9)"
    by (simp add: filter_counter_after)
  have "(\<not> 10 \<le> k \<and> k mod 10 = 9) = (k = 9)" by auto
  with fl c9 have "filter is_clear (snd (task_acc_filter_period (d, g) ?s)) =
      (if k = 9 then [Clear_screen_range 170 0 319 110] else [])"
    by (simp add: filter_period_clear)
  with assms have "filter is_clear (snd (task_acc_filter_run ins arr0) ! k) =
           (if k = 9 then [Clear_screen_range 170 0 319 110] else [])"
    by (simp add: task_acc_filter_run_def run_task_nth i)
  moreover from assms have "sampled_ten_times (fst (task_acc_filter_run (take (Suc k) ins) arr0)) = (9 \<le> k)"
    by (auto simp add: task_acc_filter_run_def filter_flag_after)
  moreover from assms have
    "sint (counter (fst (task_acc_filter_run (take k ins) arr0))) = int (k mod 10)"
    "sint (counter (fst (task_acc_filter_run (take (Suc k) ins) arr0))) = int (Suc k mod 10)"
    by (simp_all add: task_acc_filter_run_def filter_counter_value)
  ultimately show ?thesis using fl by (simp add: task_acc_filter_run_def)
qed

theorem filter_primed_exactly_once_witness:
  "sampled_ten_times (fst (task_acc_filter_run (take 9 (ramp_inputs @ ramp_inputs)) zero_array)) = False \<and>
   sampled_ten_times (fst (task_acc_filter_run (take 10 (ramp_inputs @ ramp_inputs)) zero_array)) = True \<and>
   sint (counter (fst (task_acc_filter_run (take 9 (ramp_inputs @ ramp_inputs)) zero_array))) = 9 \<and>
   sint (counter (fst (task_acc_filter_run (take 10 (ramp_inputs @ ramp_inputs)) zero_array))) = 0 \<and>
   filter is_clear (snd (task_acc_filter_run (ramp_inputs @ ramp_inputs) zero_array) ! 9) =
     [Clear_screen_range 170 0 319 110]"
proof -
  have "9 < length (ramp_inputs @ ramp_inputs)" by (simp add: ramp_inputs_def)
  from filter_primed_exactly_once [OF this, of zero_array] show ?thesis by simp
qed

text \<open>
  Claim C4. In a run of the filter task with fewer than 10 periods, no period prints a
  number, so no average is displayed in any of them and the run has no first average;
  every one of these periods (they start with the cursor at 0 to 8) renders the
  ``sampling...'' indicator; and at the end of the run the three averages still hold
  their initial zeros and the buffer is not primed.
\<close>

theorem no_average_before_priming:
  assumes "length ins < 10" and "k < length ins"
  shows "filter is_int_print (snd (task_acc_filter_run ins arr0) ! k) = [] \<and>
         shown_average (snd (task_acc_filter_run ins arr0) ! k) = None \<and>
         Tty_print 200 65 ''sampling...'' Col_White Col_Black \<in> set (snd (task_acc_filter_run ins arr0) ! k) \<and>
         first_average (snd (task_acc_filter_run ins arr0)) = None \<and>
         avg_x (fst (task_acc_filter_run ins arr0)) = 0 \<and>
         avg_y (fst (task_acc_filter_run ins arr0)) = 0 \<and>
         avg_z (fst (task_acc_filter_run ins arr0)) = 0 \<and>
         \<not> sampled_ten_times (fst (task_acc_filter_run ins arr0))"
proof -
  let ?before = "\<lambda>j. fst (run_task task_acc_filter_period (take j ins) (filter_init arr0))"
  have before: "\<not> sampled_ten_times (?before j)" if "j < length ins" for j
    using that assms(1) by (simp add: filter_flag_after)
  have none: "shown_average (snd (task_acc_filter_run ins arr0) ! j) = None" if "j < length ins" for j
  proof -
    obtain d g where "ins ! j = (d, g)" by (cases "ins ! j")
    with that before [OF that] show ?thesis
      by (simp add: task_acc_filter_run_def run_task_nth filter_period_shown)
  qed
  have "shown_average evs = None" if "evs \<in> set (snd (task_acc_filter_run ins arr0))" for evs
  proof -
    from that obtain j where "j < length (snd (task_acc_filter_run ins arr0))"
      "evs = snd (task_acc_filter_run ins arr0) ! j"
      by (auto simp add: in_set_conv_nth)
    with none [of j] show ?thesis by (simp add: task_acc_filter_run_def run_task_length)
  qed
  then have first: "first_average (snd (task_acc_filter_run ins arr0)) = None"
    by (simp add: first_average_None)
  obtain d g where i: "ins ! k = (d, g)" by (cases "ins ! k")
  from assms(2) before [OF assms(2)]
  have ip: "filter is_int_print (snd (task_acc_filter_run ins arr0) ! k) = []"
    by (simp add: task_acc_filter_run_def run_task_nth i filter_period_int_print)
  have "k mod 10 < 10" by simp
  from filter_counter_nine [OF this] assms have "counter (?before k) \<noteq> 9"
    by (simp add: filter_counter_after)
  with assms(2) before [OF assms(2)]
  have sam: "Tty_print 200 65 ''sampling...'' Col_White Col_Black
      \<in> set (snd (task_acc_filter_run ins arr0) ! k)"
    by (simp add: task_acc_filter_run_def run_task_nth i filter_period_sampling)
  from assms(1) have fl: "\<not> sampled_ten_times (fst (task_acc_filter_run ins arr0))"
    by (simp add: task_acc_filter_run_def filter_flag_after)
  from assms(1) filter_avg_before [of ins arr0]
  have "avg_x (fst (task_acc_filter_run ins arr0)) = 0 \<and>
         avg_y (fst (task_acc_filter_run ins arr0)) = 0 \<and>
         avg_z (fst (task_acc_filter_run ins arr0)) = 0"
    by (simp add: task_acc_filter_run_def)
  with first ip sam fl none [OF assms(2)] show ?thesis by simp
qed

theorem no_average_before_priming_witness:
  "filter is_int_print (snd (task_acc_filter_run (take 9 ramp_inputs) zero_array) ! 8) = [] \<and>
   shown_average (snd (task_acc_filter_run (take 9 ramp_inputs) zero_array) ! 8) = None \<and>
   Tty_print 200 65 ''sampling...'' Col_White Col_Black
     \<in> set (snd (task_acc_filter_run (take 9 ramp_inputs) zero_array) ! 8) \<and>
   first_average (snd (task_acc_filter_run (take 9 ramp_inputs) zero_array)) = None \<and>
   avg_x (fst (task_acc_filter_run (take 9 ramp_inputs) zero_array)) = 0 \<and>
   avg_y (fst (task_acc_filter_run (take 9 ramp_inputs) zero_array)) = 0 \<and>
   avg_z (fst (task_acc_filter_run (take 9 ramp_inputs) zero_array)) = 0 \<and>
   \<not> sampled_ten_times (fst (task_acc_filter_run (take 9 ramp_inputs) zero_array))"
proof -
  have "length (take 9 ramp_inputs) < 10" "8 < length (take 9 ramp_inputs)"
    by (simp_all add: ramp_inputs_def)
  from no_average_before_priming [OF this, of zero_array] show ?thesis by simp
qed

section \<open>The average over the last ten loads\<close>






section \<open>The sampling task feeding the filter task\<close>










section \<open>The average over the last ten stores\<close>









section \<open>What a missed deadline changes, and the semaphore\<close>

lemma low_bit_test: "(d AND 1 \<noteq> 0) = bit d 0" for d :: periodic_start_integer
  by (simp add: and_one_eq bit_0 mod_2_eq_odd)

lemma filter_period_state_deadline:
  "fst (task_acc_filter_period (d, g) s) = fst (task_acc_filter_period (0, g) s)"
  by (simp add: task_acc_filter_period_def Let_def case_prod_unfold)

lemma timer_period_report:
  "filter is_printf (snd (timer_task_period d t)) =
     (if bit d 0 then [Printf ''Deadline miss: TIMER task\<newline>''] else [])"
  by (simp add: timer_task_period_def Let_def low_bit_test)

lemma acc_period_report:
  "filter is_printf (snd (task_acc_period (d, r) g)) =
     (if bit d 0 then [Printf ''Deadline miss: ACC task\<newline>''] else [])"
  by (simp add: task_acc_period_def low_bit_test)

lemma filter_period_report:
  "filter is_printf (snd (task_acc_filter_period (d, g) s)) =
     (if bit d 0 then [Printf ''Deadline miss: ACC FILTER task\<newline>''] else [])"
  by (simp add: filter_period_events filter_display_def low_bit_test)

lemma plot_period_report:
  "filter is_printf (snd (task_plot_period (d, p) c)) =
     (if bit d 0 then [Printf ''Deadline miss: PLOT task\<newline>''] else [])"
  by (simp add: task_plot_period_def low_bit_test)

lemma timer_period_proceeds:
  "fst (timer_task_period d t) = fst (timer_task_period 0 t) \<and>
   filter (\<lambda>e. \<not> is_printf e) (snd (timer_task_period d t)) = snd (timer_task_period 0 t)"
  by (simp add: timer_task_period_def Let_def)

lemma acc_period_proceeds:
  "fst (task_acc_period (d, r) g) = fst (task_acc_period (0, r) g) \<and>
   filter (\<lambda>e. \<not> is_printf e) (snd (task_acc_period (d, r) g)) = snd (task_acc_period (0, r) g)"
  by (simp add: task_acc_period_def)

lemma filter_period_proceeds:
  "fst (task_acc_filter_period (d, g) s) = fst (task_acc_filter_period (0, g) s) \<and>
   filter (\<lambda>e. \<not> is_printf e) (snd (task_acc_filter_period (d, g) s)) = snd (task_acc_filter_period (0, g) s)"
  by (simp add: filter_period_events filter_display_def filter_period_state_deadline [of d])

lemma plot_period_proceeds:
  "fst (task_plot_period (d, p) c) = fst (task_plot_period (0, p) c) \<and>
   filter (\<lambda>e. \<not> is_printf e) (snd (task_plot_period (d, p) c)) = snd (task_plot_period (0, p) c)"
  by (simp add: task_plot_period_def)

lemma run_task_proceeds:
  assumes "\<And>i s. fst (body i s) = fst (body (f i) s) \<and> filter P (snd (body i s)) = snd (body (f i) s)"
  shows "fst (run_task body ins s) = fst (run_task body (map f ins) s) \<and>
         map (filter P) (snd (run_task body ins s)) = snd (run_task body (map f ins) s)"
proof (induction ins arbitrary: s)
  case Nil
  then show ?case by simp
next
  case (Cons i ins)
  from assms [of i s] Cons [of "fst (body (f i) s)"] show ?case
    by (simp add: case_prod_unfold)
qed

lemma timer_period_lock: "lock_ok False (snd (timer_task_period d t))"
  by (simp add: timer_task_period_def Let_def)

lemma acc_period_lock: "lock_ok False (snd (task_acc_period (d, r) g))"
  by (simp add: task_acc_period_def)

lemma filter_period_lock: "lock_ok False (snd (task_acc_filter_period (d, g) s))"
  by (simp add: filter_period_events filter_display_def)

lemma plot_period_lock: "lock_ok False (snd (task_plot_period (d, p) c))"
  by (simp add: task_plot_period_def)

lemma idle_lock: "lock_ok False (replicate n (Printf m))"
  by (induction n) simp_all

lemma timer_period_cell: "filter is_cell_access (snd (timer_task_period d t)) = []"
  by (simp add: timer_task_period_def Let_def)

lemma acc_period_cell: "filter is_cell_access (snd (task_acc_period (d, r) g)) = [Cell_store r]"
  by (simp add: task_acc_period_def)

lemma filter_period_cell: "filter is_cell_access (snd (task_acc_filter_period (d, g) s)) = [Cell_load g]"
  by (simp add: filter_period_events filter_display_def)

lemma plot_period_cell: "filter is_cell_access (snd (task_plot_period (d, p) c)) = [Cell_load p]"
  by (simp add: task_plot_period_def)

lemma idle_cell: "filter is_cell_access (replicate n (Printf m)) = []"
  by (induction n) simp_all

text \<open>
  Claim C7. For each of the four periodic tasks and every period \<open>k\<close> of any run, the
  only console output of the period is the deadline-miss report naming the task, and it
  is printed exactly if the lowest bit of the value returned by \<open>wait_for_next_period\<close>
  at that release is set. Apart from the report, the run is the one in which no release
  signals a miss: the same local variables at the end and the same calls in every period.
  Every release is followed by a complete run of the body, so a run over \<open>n\<close> releases has
  \<open>n\<close> periods; no value of the wait ends the loop.
\<close>

theorem deadline_miss_reported_iff_signalled:
  assumes "k < length ts" and "k < length as" and "k < length fs" and "k < length ps"
  shows
    "filter is_printf (snd (timer_task_run ts) ! k) =
       (if bit (ts ! k) 0 then [Printf ''Deadline miss: TIMER task\<newline>''] else []) \<and>
     filter is_printf (snd (task_acc_run as g0) ! k) =
       (if bit (fst (as ! k)) 0 then [Printf ''Deadline miss: ACC task\<newline>''] else []) \<and>
     filter is_printf (snd (task_acc_filter_run fs arr0) ! k) =
       (if bit (fst (fs ! k)) 0 then [Printf ''Deadline miss: ACC FILTER task\<newline>''] else []) \<and>
     filter is_printf (snd (task_plot_run ps) ! k) =
       (if bit (fst (ps ! k)) 0 then [Printf ''Deadline miss: PLOT task\<newline>''] else []) \<and>
     fst (timer_task_run ts) = fst (timer_task_run (map (\<lambda>d. 0) ts)) \<and>
     fst (task_acc_run as g0) = fst (task_acc_run (map (\<lambda>i. (0, snd i)) as) g0) \<and>
     fst (task_acc_filter_run fs arr0) = fst (task_acc_filter_run (map (\<lambda>i. (0, snd i)) fs) arr0) \<and>
     fst (task_plot_run ps) = fst (task_plot_run (map (\<lambda>i. (0, snd i)) ps)) \<and>
     map (filter (\<lambda>e. \<not> is_printf e)) (snd (timer_task_run ts)) =
       snd (timer_task_run (map (\<lambda>d. 0) ts)) \<and>
     map (filter (\<lambda>e. \<not> is_printf e)) (snd (task_acc_run as g0)) =
       snd (task_acc_run (map (\<lambda>i. (0, snd i)) as) g0) \<and>
     map (filter (\<lambda>e. \<not> is_printf e)) (snd (task_acc_filter_run fs arr0)) =
       snd (task_acc_filter_run (map (\<lambda>i. (0, snd i)) fs) arr0) \<and>
     map (filter (\<lambda>e. \<not> is_printf e)) (snd (task_plot_run ps)) =
       snd (task_plot_run (map (\<lambda>i. (0, snd i)) ps)) \<and>
     length (snd (timer_task_run ts)) = length ts \<and>
     length (snd (task_acc_run as g0)) = length as \<and>
     length (snd (task_acc_filter_run fs arr0)) = length fs \<and>
     length (snd (task_plot_run ps)) = length ps"
proof -
  have t: "filter is_printf (snd (timer_task_run ts) ! k) =
       (if bit (ts ! k) 0 then [Printf ''Deadline miss: TIMER task\<newline>''] else [])"
    using assms(1) by (simp add: timer_task_run_def run_task_nth timer_period_report)
  obtain da ra where a: "as ! k = (da, ra)" by (cases "as ! k")
  have a1: "filter is_printf (snd (task_acc_run as g0) ! k) =
       (if bit (fst (as ! k)) 0 then [Printf ''Deadline miss: ACC task\<newline>''] else [])"
    using assms(2) by (simp add: task_acc_run_def run_task_nth a acc_period_report)
  obtain df gf where f: "fs ! k = (df, gf)" by (cases "fs ! k")
  have f1: "filter is_printf (snd (task_acc_filter_run fs arr0) ! k) =
       (if bit (fst (fs ! k)) 0 then [Printf ''Deadline miss: ACC FILTER task\<newline>''] else [])"
    using assms(3) by (simp add: task_acc_filter_run_def run_task_nth f filter_period_report)
  obtain dp gp where p: "ps ! k = (dp, gp)" by (cases "ps ! k")
  have p1: "filter is_printf (snd (task_plot_run ps) ! k) =
       (if bit (fst (ps ! k)) 0 then [Printf ''Deadline miss: PLOT task\<newline>''] else [])"
    using assms(4) by (simp add: task_plot_run_def run_task_nth p plot_period_report)
  have t2: "fst (timer_task_run ts) = fst (timer_task_run (map (\<lambda>d. 0) ts)) \<and>
     map (filter (\<lambda>e. \<not> is_printf e)) (snd (timer_task_run ts)) =
       snd (timer_task_run (map (\<lambda>d. 0) ts))"
    unfolding timer_task_run_def
    by (rule run_task_proceeds) (rule timer_period_proceeds)
  have a2: "fst (task_acc_run as g0) = fst (task_acc_run (map (\<lambda>i. (0, snd i)) as) g0) \<and>
     map (filter (\<lambda>e. \<not> is_printf e)) (snd (task_acc_run as g0)) =
       snd (task_acc_run (map (\<lambda>i. (0, snd i)) as) g0)"
    unfolding task_acc_run_def
  proof (rule run_task_proceeds)
    fix i :: "periodic_start_integer \<times> position" and s
    from acc_period_proceeds [of "fst i" "snd i" s]
    show "fst (task_acc_period i s) = fst (task_acc_period (0, snd i) s) \<and>
        filter (\<lambda>e. \<not> is_printf e) (snd (task_acc_period i s)) = snd (task_acc_period (0, snd i) s)"
      by simp
  qed
  have f2: "fst (task_acc_filter_run fs arr0) = fst (task_acc_filter_run (map (\<lambda>i. (0, snd i)) fs) arr0) \<and>
     map (filter (\<lambda>e. \<not> is_printf e)) (snd (task_acc_filter_run fs arr0)) =
       snd (task_acc_filter_run (map (\<lambda>i. (0, snd i)) fs) arr0)"
    unfolding task_acc_filter_run_def
  proof (rule run_task_proceeds)
    fix i :: "periodic_start_integer \<times> position" and s
    from filter_period_proceeds [of "fst i" "snd i" s]
    show "fst (task_acc_filter_period i s) = fst (task_acc_filter_period (0, snd i) s) \<and>
        filter (\<lambda>e. \<not> is_printf e) (snd (task_acc_filter_period i s)) =
          snd (task_acc_filter_period (0, snd i) s)"
      by simp
  qed
  have p2: "fst (task_plot_run ps) = fst (task_plot_run (map (\<lambda>i. (0, snd i)) ps)) \<and>
     map (filter (\<lambda>e. \<not> is_printf e)) (snd (task_plot_run ps)) =
       snd (task_plot_run (map (\<lambda>i. (0, snd i)) ps))"
    unfolding task_plot_run_def
  proof (rule run_task_proceeds)
    fix i :: "periodic_start_integer \<times> position" and s
    from plot_period_proceeds [of "fst i" "snd i" s]
    show "fst (task_plot_period i s) = fst (task_plot_period (0, snd i) s) \<and>
        filter (\<lambda>e. \<not> is_printf e) (snd (task_plot_period i s)) = snd (task_plot_period (0, snd i) s)"
      by simp
  qed
  have len: "length (snd (timer_task_run ts)) = length ts"
    "length (snd (task_acc_run as g0)) = length as"
    "length (snd (task_acc_filter_run fs arr0)) = length fs"
    "length (snd (task_plot_run ps)) = length ps"
    by (simp_all add: timer_task_run_def task_acc_run_def task_acc_filter_run_def
        task_plot_run_def run_task_length)
  from t a1 f1 p1 t2 a2 f2 p2 len show ?thesis by blast
qed

theorem deadline_miss_reported_iff_signalled_witness:
  "filter is_printf (snd (timer_task_run [2, 3]) ! 1) = [Printf ''Deadline miss: TIMER task\<newline>''] \<and>
   filter is_printf
     (snd (task_acc_run [(1, \<lparr>pos_x = 1, pos_y = 2, pos_z = 3\<rparr>), (2, \<lparr>pos_x = 4, pos_y = 5, pos_z = 6\<rparr>)]
        \<lparr>pos_x = 0, pos_y = 0, pos_z = 0\<rparr>) ! 1) = [] \<and>
   filter is_printf
     (snd (task_acc_filter_run
        [(0, \<lparr>pos_x = 1, pos_y = 2, pos_z = 3\<rparr>), (1, \<lparr>pos_x = 4, pos_y = 5, pos_z = 6\<rparr>)] zero_array) ! 1) =
     [Printf ''Deadline miss: ACC FILTER task\<newline>''] \<and>
   filter is_printf
     (snd (task_plot_run [(1, \<lparr>pos_x = 1, pos_y = 2, pos_z = 3\<rparr>), (0, \<lparr>pos_x = 4, pos_y = 5, pos_z = 6\<rparr>)]) ! 1) = [] \<and>
   length (snd (timer_task_run [2, 3])) = 2"
  using deadline_miss_reported_iff_signalled [where k = 1 and ts = "[2, 3]"
      and as = "[(1, \<lparr>pos_x = 1, pos_y = 2, pos_z = 3\<rparr>), (2, \<lparr>pos_x = 4, pos_y = 5, pos_z = 6\<rparr>)]"
      and fs = "[(0, \<lparr>pos_x = 1, pos_y = 2, pos_z = 3\<rparr>), (1, \<lparr>pos_x = 4, pos_y = 5, pos_z = 6\<rparr>)]"
      and ps = "[(1, \<lparr>pos_x = 1, pos_y = 2, pos_z = 3\<rparr>), (0, \<lparr>pos_x = 4, pos_y = 5, pos_z = 6\<rparr>)]"
      and ?g0.0 = "\<lparr>pos_x = 0, pos_y = 0, pos_z = 0\<rparr>" and ?arr0.0 = zero_array]
  by simp

text \<open>
  Claim C8. In every period of every task, and in the idle task, the calls obey the
  locking discipline \<open>lock_ok\<close>: \<open>global_acc_data\<close> is read or written only between a
  \<open>sem_take\<close> and the matching \<open>sem_release\<close> of semaphore 1, and no console, display or
  sensor call is made while the semaphore is held. The only accesses to the cell are one
  whole-value store per period of the reading task and one whole-value load per period of
  the filter task and of the plotting task; the timer task and the idle task never touch
  it. What a task keeps after the release is the copied value.
\<close>

theorem shared_cell_only_under_lock:
  assumes "k < length ts" and "k < length as" and "k < length fs" and "k < length ps"
  shows
    "lock_ok False (snd (timer_task_run ts) ! k) \<and>
     lock_ok False (snd (task_acc_run as g0) ! k) \<and>
     lock_ok False (snd (task_acc_filter_run fs arr0) ! k) \<and>
     lock_ok False (snd (task_plot_run ps) ! k) \<and>
     lock_ok False (idle_code n) \<and>
     filter is_cell_access (snd (timer_task_run ts) ! k) = [] \<and>
     filter is_cell_access (snd (task_acc_run as g0) ! k) = [Cell_store (snd (as ! k))] \<and>
     filter is_cell_access (snd (task_acc_filter_run fs arr0) ! k) = [Cell_load (snd (fs ! k))] \<and>
     filter is_cell_access (snd (task_plot_run ps) ! k) = [Cell_load (snd (ps ! k))] \<and>
     filter is_cell_access (idle_code n) = []"
proof -
  obtain da ra where a: "as ! k = (da, ra)" by (cases "as ! k")
  obtain df gf where f: "fs ! k = (df, gf)" by (cases "fs ! k")
  obtain dp gp where p: "ps ! k = (dp, gp)" by (cases "ps ! k")
  from assms(1) have "lock_ok False (snd (timer_task_run ts) ! k)"
    "filter is_cell_access (snd (timer_task_run ts) ! k) = []"
    by (simp_all add: timer_task_run_def run_task_nth timer_period_lock timer_period_cell)
  moreover from assms(2) have "lock_ok False (snd (task_acc_run as g0) ! k)"
    "filter is_cell_access (snd (task_acc_run as g0) ! k) = [Cell_store (snd (as ! k))]"
    by (simp_all add: task_acc_run_def run_task_nth a acc_period_lock acc_period_cell)
  moreover from assms(3) have "lock_ok False (snd (task_acc_filter_run fs arr0) ! k)"
    "filter is_cell_access (snd (task_acc_filter_run fs arr0) ! k) = [Cell_load (snd (fs ! k))]"
    by (simp_all add: task_acc_filter_run_def run_task_nth f filter_period_lock filter_period_cell)
  moreover from assms(4) have "lock_ok False (snd (task_plot_run ps) ! k)"
    "filter is_cell_access (snd (task_plot_run ps) ! k) = [Cell_load (snd (ps ! k))]"
    by (simp_all add: task_plot_run_def run_task_nth p plot_period_lock plot_period_cell)
  moreover have "lock_ok False (idle_code n)" "filter is_cell_access (idle_code n) = []"
    by (simp_all add: idle_code_def idle_lock idle_cell)
  ultimately show ?thesis by blast
qed

theorem shared_cell_only_under_lock_witness:
  "lock_ok False (snd (timer_task_run [2, 3]) ! 1) \<and>
   lock_ok False
     (snd (task_acc_run [(1, \<lparr>pos_x = 1, pos_y = 2, pos_z = 3\<rparr>), (2, \<lparr>pos_x = 4, pos_y = 5, pos_z = 6\<rparr>)]
        \<lparr>pos_x = 0, pos_y = 0, pos_z = 0\<rparr>) ! 1) \<and>
   lock_ok False
     (snd (task_acc_filter_run
        [(0, \<lparr>pos_x = 1, pos_y = 2, pos_z = 3\<rparr>), (1, \<lparr>pos_x = 4, pos_y = 5, pos_z = 6\<rparr>)] zero_array) ! 1) \<and>
   lock_ok False
     (snd (task_plot_run [(1, \<lparr>pos_x = 1, pos_y = 2, pos_z = 3\<rparr>), (0, \<lparr>pos_x = 4, pos_y = 5, pos_z = 6\<rparr>)]) ! 1) \<and>
   lock_ok False (idle_code 3) \<and>
   filter is_cell_access
     (snd (task_acc_run [(1, \<lparr>pos_x = 1, pos_y = 2, pos_z = 3\<rparr>), (2, \<lparr>pos_x = 4, pos_y = 5, pos_z = 6\<rparr>)]
        \<lparr>pos_x = 0, pos_y = 0, pos_z = 0\<rparr>) ! 1) = [Cell_store \<lparr>pos_x = 4, pos_y = 5, pos_z = 6\<rparr>] \<and>
   filter is_cell_access
     (snd (task_acc_filter_run
        [(0, \<lparr>pos_x = 1, pos_y = 2, pos_z = 3\<rparr>), (1, \<lparr>pos_x = 4, pos_y = 5, pos_z = 6\<rparr>)] zero_array) ! 1) =
     [Cell_load \<lparr>pos_x = 4, pos_y = 5, pos_z = 6\<rparr>]"
  using shared_cell_only_under_lock [where k = 1 and ts = "[2, 3]"
      and as = "[(1, \<lparr>pos_x = 1, pos_y = 2, pos_z = 3\<rparr>), (2, \<lparr>pos_x = 4, pos_y = 5, pos_z = 6\<rparr>)]"
      and fs = "[(0, \<lparr>pos_x = 1, pos_y = 2, pos_z = 3\<rparr>), (1, \<lparr>pos_x = 4, pos_y = 5, pos_z = 6\<rparr>)]"
      and ps = "[(1, \<lparr>pos_x = 1, pos_y = 2, pos_z = 3\<rparr>), (0, \<lparr>pos_x = 4, pos_y = 5, pos_z = 6\<rparr>)]"
      and ?g0.0 = "\<lparr>pos_x = 0, pos_y = 0, pos_z = 0\<rparr>" and ?arr0.0 = zero_array and n = 3]
  by simp

section \<open>The plotting task\<close>

lemma small_cases5:
  assumes "k < 5"
  obtains "k = 0" | "k = 1" | "k = 2" | "k = 3" | "k = (4::nat)"
proof -
  from assms have "k \<in> {0, 1, 2, 3, 4}" by auto
  with that show thesis by blast
qed

lemma plot_counter_step:
  "k < 5 \<Longrightarrow> int_rem (of_nat k + 1) 5 = of_nat (Suc k mod 5)"
  by (erule small_cases5) (simp_all add: int_rem_def signed_modulo_int_def)

lemma plot_counter_value:
  "k < 5 \<Longrightarrow> sint (of_nat k :: c_int) = int k \<and> ((of_nat k :: c_int) = 0) = (k = 0)"
  by (erule small_cases5) simp_all

lemma plot_counter_after:
  "fst (run_task task_plot_period ins 0) = of_nat (length ins mod 5)"
proof (induction ins rule: rev_induct)
  case Nil
  then show ?case by simp
next
  case (snoc i ins)
  have "length ins mod 5 < 5" by simp
  from plot_counter_step [OF this] snoc show ?case
    by (simp add: run_task_snoc task_plot_period_def case_prod_unfold mod_Suc)
qed

lemma plot_period_clear:
  "filter is_clear (snd (task_plot_period (d, p) c)) =
     (if c = 0 then [Clear_screen_range 170 125 319 239] else [])"
  by (simp add: task_plot_period_def)

lemma plot_period_circle:
  "filter is_circle (snd (task_plot_period (d, p) c)) =
     [Draw_filled_circle (205 + 5 * c) (180 + int_div (promote (pos_z p)) 8 * (- 1)) 1 Col_Green]"
  by (simp add: task_plot_period_def)

lemma plot_x_value:
  "k < 5 \<Longrightarrow> sint (205 + 5 * (of_nat k :: c_int)) = 205 + 5 * int k"
  by (erule small_cases5) simp_all

lemma plot_y_value:
  "sint (180 + int_div (promote v) 8 * (- 1)) = 180 - sint v sdiv 8"
proof -
  let ?q = "sint v sdiv 8"
  from sint16_range [of v] sdiv_within [of 32768 "sint v" 8]
  have q: "- 32768 \<le> ?q" "?q \<le> 32768" by simp_all
  have "180 + int_div (promote v) 8 * (- 1) = (word_of_int (180 - ?q) :: c_int)"
    by (simp add: int_div_def sint_promote)
  moreover from q have "sint (word_of_int (180 - ?q) :: c_int) = 180 - ?q"
    by (intro sint_word_of_int_32) simp_all
  ultimately show ?thesis by simp
qed

text \<open>
  Claim C5. In a run of the plotting task over any releases, the cursor is \<open>k mod 5\<close> at
  the start of period \<open>k\<close> (counting from 0) and \<open>(k + 1) mod 5\<close> at its end, so it takes
  the values 0, 1, 2, 3, 4, 0, 1, ... for as long as the task is released. Period \<open>k\<close>
  clears the chart region, once, exactly if \<open>k mod 5 = 0\<close>, and makes no clear call
  otherwise; these are the first period and the periods whose predecessor started with
  the cursor at 4.
\<close>

theorem plot_cursor_cycles:
  assumes "k < length ins"
  shows "sint (fst (task_plot_run (take k ins))) = int (k mod 5) \<and>
         sint (fst (task_plot_run (take (Suc k) ins))) = int (Suc k mod 5) \<and>
         filter is_clear (snd (task_plot_run ins) ! k) =
           (if k mod 5 = 0 then [Clear_screen_range 170 125 319 239] else []) \<and>
         ((k mod 5 = 0) = (k = 0 \<or> sint (fst (task_plot_run (take (k - 1) ins))) = 4))"
proof -
  have c: "fst (task_plot_run (take j ins)) = of_nat (j mod 5)" if "j \<le> length ins" for j
    using that by (simp add: task_plot_run_def plot_counter_after)
  have v: "sint (of_nat (j mod 5) :: c_int) = int (j mod 5)"
    "((of_nat (j mod 5) :: c_int) = 0) = (j mod 5 = 0)" for j
    using plot_counter_value [of "j mod 5"] by simp_all
  obtain d p where i: "ins ! k = (d, p)" by (cases "ins ! k")
  from assms have "snd (task_plot_run ins) ! k =
      snd (task_plot_period (ins ! k) (fst (task_plot_run (take k ins))))"
    by (simp add: task_plot_run_def run_task_nth)
  with assms have cl: "filter is_clear (snd (task_plot_run ins) ! k) =
           (if k mod 5 = 0 then [Clear_screen_range 170 125 319 239] else [])"
    by (simp add: i plot_period_clear c v)
  have wrap: "(k mod 5 = 0) = (k = 0 \<or> int ((k - 1) mod 5) = 4)"
    by (cases k) (simp_all add: mod_Suc)
  from assms c [of k] c [of "Suc k"] c [of "k - 1"] cl wrap show ?thesis
    by (simp add: v)
qed

theorem plot_cursor_cycles_witness:
  "sint (fst (task_plot_run (take 5 (replicate 6 (1, \<lparr>pos_x = 0, pos_y = 0, pos_z = 100\<rparr>))))) = 0 \<and>
   sint (fst (task_plot_run (take 6 (replicate 6 (1, \<lparr>pos_x = 0, pos_y = 0, pos_z = 100\<rparr>))))) = 1 \<and>
   filter is_clear (snd (task_plot_run (replicate 6 (1, \<lparr>pos_x = 0, pos_y = 0, pos_z = 100\<rparr>))) ! 5) =
     [Clear_screen_range 170 125 319 239] \<and>
   sint (fst (task_plot_run (take 4 (replicate 6 (1, \<lparr>pos_x = 0, pos_y = 0, pos_z = 100\<rparr>))))) = 4"
  using plot_cursor_cycles [of 5 "replicate 6 (1, \<lparr>pos_x = 0, pos_y = 0, pos_z = 100\<rparr>)"]
  by simp

text \<open>
  Claim C6. Every period of the plotting task makes exactly one \<open>draw_filled_circle\<close>
  call, of radius 1 in green. Read as signed numbers, its horizontal position is
  \<open>205 + 5 * cursor\<close>, with the cursor \<open>k mod 5\<close> in period \<open>k\<close>, and its vertical position
  is 180 minus the loaded sample's \<open>z\<close> divided by 8, the division truncating towards
  zero as C's does. Neither computation wraps around.
\<close>

theorem plot_point_position:
  assumes "k < length ins"
  shows "\<exists>cx cy. filter is_circle (snd (task_plot_run ins) ! k) = [Draw_filled_circle cx cy 1 Col_Green] \<and>
           sint cx = 205 + 5 * int (k mod 5) \<and>
           sint cy = 180 - sint (pos_z (snd (ins ! k))) sdiv 8"
proof -
  obtain d p where i: "ins ! k = (d, p)" by (cases "ins ! k")
  from assms have c: "fst (task_plot_run (take k ins)) = of_nat (k mod 5)"
    by (simp add: task_plot_run_def plot_counter_after)
  from assms have "snd (task_plot_run ins) ! k =
      snd (task_plot_period (ins ! k) (fst (task_plot_run (take k ins))))"
    by (simp add: task_plot_run_def run_task_nth)
  then have "filter is_circle (snd (task_plot_run ins) ! k) =
     [Draw_filled_circle (205 + 5 * of_nat (k mod 5)) (180 + int_div (promote (pos_z p)) 8 * (- 1)) 1 Col_Green]"
    by (simp add: i c plot_period_circle)
  moreover have "sint (205 + 5 * (of_nat (k mod 5) :: c_int)) = 205 + 5 * int (k mod 5)"
    by (rule plot_x_value) simp
  moreover have "sint (180 + int_div (promote (pos_z p)) 8 * (- 1)) = 180 - sint (pos_z (snd (ins ! k))) sdiv 8"
    using plot_y_value [of "pos_z p"] by (simp add: i)
  ultimately show ?thesis by blast
qed

theorem plot_point_position_witness:
  "\<exists>cx cy. filter is_circle
       (snd (task_plot_run (replicate 6 (1, \<lparr>pos_x = 0, pos_y = 0, pos_z = - 100\<rparr>))) ! 3) =
       [Draw_filled_circle cx cy 1 Col_Green] \<and>
     sint cx = 220 \<and> sint cy = 192"
  using plot_point_position [of 3 "replicate 6 (1, \<lparr>pos_x = 0, pos_y = 0, pos_z = - 100\<rparr>)"]
  by (simp add: signed_divide_int_def)

section \<open>Periods and priorities\<close>

text \<open>
  Claim C9. Every task that \<open>main\<close> creates other than the idle task opens with
  \<open>init_period_time(50)\<close> and is created with priority 1; these are the timer, reading,
  filter and plotting tasks. The idle task sets no period and is created with priority
  0, a smaller number than the priority of each of the four. Fifty ticks of 20 ms are
  1000 ms.
\<close>

theorem periodic_tasks_share_period_and_priority:
  "(\<forall>t \<in> set main_task_create. entry t \<noteq> Idle_code \<longrightarrow>
      init_period_time (entry t) = Some 50 \<and> priority t = 1) \<and>
   (\<forall>t \<in> set main_task_create. entry t = Idle_code \<longrightarrow>
      init_period_time (entry t) = None \<and>
      (\<forall>u \<in> set main_task_create. entry u \<noteq> Idle_code \<longrightarrow> priority t < priority u)) \<and>
   map entry main_task_create =
     [Idle_code, Timer_task_code, Task_acc_code, Task_acc_filter_code, Task_plot_code] \<and>
   50 * tick_ms = 1000"
  by (simp add: main_task_create_def tick_ms_def)

theorem periodic_tasks_share_period_and_priority_witness:
  "init_period_time (entry (main_task_create ! 3)) = Some 50 \<and>
   entry (main_task_create ! 3) = Task_acc_filter_code \<and>
   priority (main_task_create ! 3) = 1 \<and>
   entry (main_task_create ! 0) = Idle_code \<and>
   priority (main_task_create ! 0) < priority (main_task_create ! 3) \<and>
   50 * tick_ms = 1000"
proof -
  note all = periodic_tasks_share_period_and_priority
  have m3: "main_task_create ! 3 \<in> set main_task_create"
    and m0: "main_task_create ! 0 \<in> set main_task_create"
    and e3: "entry (main_task_create ! 3) = Task_acc_filter_code"
    and e0: "entry (main_task_create ! 0) = Idle_code"
    by (simp_all add: main_task_create_def)
  from e3 have n3: "entry (main_task_create ! 3) \<noteq> Idle_code" by simp
  from all m3 n3
  have "init_period_time (entry (main_task_create ! 3)) = Some 50 \<and> priority (main_task_create ! 3) = 1"
    by blast
  moreover from all m0 e0 m3 n3 have "priority (main_task_create ! 0) < priority (main_task_create ! 3)"
    by blast
  moreover from all have "50 * tick_ms = 1000" by blast
  ultimately show ?thesis using e3 e0 by simp
qed

end
